theory Spec2Isabelle
  imports Main "HOL-Library.Multiset" "HOL-Library.Sublist"
begin

section \<open>Host environment\<close>

text \<open>
  Exceptions are values.  \<open>Error msg\<close> is \<^verbatim>\<open>new Error(msg)\<close>; the other constructors
  are what the browser raises from \<^verbatim>\<open>localStorage\<close> and \<^verbatim>\<open>JSON\<close>.  A computation
  that may throw has type \<open>exn + 'a\<close>, with \<open>Inl\<close> the thrown exception.
\<close>

datatype exn = Error string | SyntaxError | TypeError | SecurityError | QuotaExceededError

definition exn_bind :: "exn + 'a \<Rightarrow> ('a \<Rightarrow> exn + 'b) \<Rightarrow> exn + 'b" where
  "exn_bind m f = (case m of Inl e \<Rightarrow> Inl e | Inr v \<Rightarrow> f v)"

text \<open>\<^verbatim>\<open>try { body } catch { handler }\<close>\<close>

definition try_catch :: "exn + 'a \<Rightarrow> (exn \<Rightarrow> exn + 'a) \<Rightarrow> exn + 'a" where
  "try_catch body handler = (case body of Inl e \<Rightarrow> handler e | Inr v \<Rightarrow> Inr v)"

text \<open>
  JSON values, as \<^verbatim>\<open>JSON.parse\<close> returns them.  A number is represented by the text
  \<^verbatim>\<open>String(n)\<close> gives for it (so zero is \<open>''0''\<close>); an object by its properties.
\<close>

datatype json =
    JNull
  | JBool bool
  | JNum string
  | JStr string
  | JArr "json list"
  | JObj "(string \<times> json) list"

text \<open>
  A string kept in \<^verbatim>\<open>localStorage\<close> is represented by what \<^verbatim>\<open>JSON.parse\<close> makes of
  it: \<open>JSON_text j\<close> is a string that decodes to \<open>j\<close> (and \<^verbatim>\<open>JSON.stringify\<close> of \<open>j\<close>
  is such a string), \<open>Other_text s\<close> is a string \<open>s\<close> that \<^verbatim>\<open>JSON.parse\<close> rejects.
\<close>

datatype stored = JSON_text json | Other_text string

definition JSON_parse :: "stored \<Rightarrow> exn + json" where
  "JSON_parse raw = (case raw of JSON_text j \<Rightarrow> Inr j | Other_text _ \<Rightarrow> Inl SyntaxError)"

text \<open>
  The argument of \<^verbatim>\<open>JSON.stringify\<close>: a value with a JSON encoding, \<^verbatim>\<open>undefined\<close>
  (the result is \<^verbatim>\<open>undefined\<close>, which \<^verbatim>\<open>setItem\<close> stores as the string
  \<^verbatim>\<open>"undefined"\<close>), or a value \<^verbatim>\<open>JSON.stringify\<close> throws on (a cyclic object).
\<close>

datatype jsvalue = Plain json | Undefined | Cyclic

definition JSON_stringify :: "jsvalue \<Rightarrow> exn + stored" where
  "JSON_stringify v =
     (case v of
        Plain j \<Rightarrow> Inr (JSON_text j)
      | Undefined \<Rightarrow> Inr (Other_text ''undefined'')
      | Cyclic \<Rightarrow> Inl TypeError)"

text \<open>
  The browser's \<^verbatim>\<open>localStorage\<close> object: its entries, and for each method whether a
  call raises (access denied, quota exceeded, method missing).
\<close>

record local_storage =
  items :: "string \<Rightarrow> stored option"
  getItem_raises :: "string \<Rightarrow> bool"
  setItem_raises :: "string \<Rightarrow> stored \<Rightarrow> bool"
  removeItem_raises :: "string \<Rightarrow> bool"

definition getItem :: "local_storage \<Rightarrow> string \<Rightarrow> exn + stored option" where
  "getItem s key = (if getItem_raises s key then Inl SecurityError else Inr (items s key))"

definition setItem :: "local_storage \<Rightarrow> string \<Rightarrow> stored \<Rightarrow> exn + local_storage" where
  "setItem s key payload =
     (if setItem_raises s key payload then Inl QuotaExceededError
      else Inr (s\<lparr>items := (items s)(key \<mapsto> payload)\<rparr>))"

definition removeItem :: "local_storage \<Rightarrow> string \<Rightarrow> exn + local_storage" where
  "removeItem s key =
     (if removeItem_raises s key then Inl TypeError
      else Inr (s\<lparr>items := (items s)(key := None)\<rparr>))"

text \<open>
  What \<^verbatim>\<open>globalThis\<close> offers: no global object, a \<^verbatim>\<open>localStorage\<close> getter that
  throws, a falsy \<^verbatim>\<open>localStorage\<close>, an object without \<^verbatim>\<open>getItem\<close>/\<^verbatim>\<open>setItem\<close>
  functions, or a storage object.
\<close>

datatype global =
    No_globalThis
  | Getter_raises exn
  | LS_falsy
  | LS_no_methods
  | LS local_storage

section \<open>StorageService\<close>

definition NOTES_KEY :: string where
  "NOTES_KEY = ''notes.v1''"

definition storage :: "global \<Rightarrow> exn + local_storage option" where
  "storage g =
     try_catch
       (case g of
          No_globalThis \<Rightarrow> Inr None
        | Getter_raises e \<Rightarrow> Inl e
        | LS_falsy \<Rightarrow> Inr None
        | LS_no_methods \<Rightarrow> Inr None
        | LS ls \<Rightarrow> Inr (Some ls))
       (\<lambda>_. Inr None)"

text \<open>\<open>read\<close> returns a JSON value; \<open>JNull\<close> is \<^verbatim>\<open>null\<close>.\<close>

definition read :: "global \<Rightarrow> string \<Rightarrow> exn + json" where
  "read g key =
     try_catch
       (exn_bind (storage g) (\<lambda>s.
          case s of
            None \<Rightarrow> Inr JNull
          | Some ls \<Rightarrow>
              exn_bind (getItem ls key) (\<lambda>raw.
                case raw of
                  None \<Rightarrow> Inr JNull
                | Some r \<Rightarrow> try_catch (JSON_parse r) (\<lambda>_. Inr JNull))))
       (\<lambda>_. Inr JNull)"

text \<open>\<open>write'\<close> and \<open>remove\<close> return the environment they leave behind.\<close>

definition write' :: "global \<Rightarrow> string \<Rightarrow> jsvalue \<Rightarrow> exn + global" where
  "write' g key v =
     try_catch
       (exn_bind (storage g) (\<lambda>s.
          case s of
            None \<Rightarrow> Inr g
          | Some ls \<Rightarrow>
              exn_bind (JSON_stringify v) (\<lambda>payload.
              exn_bind (setItem ls key payload) (\<lambda>ls'. Inr (LS ls')))))
       (\<lambda>_. Inr g)"

definition remove :: "global \<Rightarrow> string \<Rightarrow> exn + global" where
  "remove g key =
     try_catch
       (exn_bind (storage g) (\<lambda>s.
          case s of
            None \<Rightarrow> Inr g
          | Some ls \<Rightarrow> exn_bind (removeItem ls key) (\<lambda>ls'. Inr (LS ls'))))
       (\<lambda>_. Inr g)"

section \<open>Strings and dates\<close>

text \<open>
  Strings are sequences of 8-bit characters, read as the code points U+0000 to U+00FF.
  On these \<^verbatim>\<open>toLowerCase\<close> maps \<^verbatim>\<open>A\<close> to \<^verbatim>\<open>Z\<close> and the capital letters U+00C0 to
  U+00DE (U+00D7, the multiplication sign, is no letter) to the character 32 places up,
  and \<^verbatim>\<open>trim\<close> strips the white space and line terminators TAB, LF, VT, FF, CR, SP
  and NBSP from both ends.
\<close>

definition lower_char :: "char \<Rightarrow> char" where
  "lower_char c =
     (let n = (of_char c :: nat)
      in if (65 \<le> n \<and> n \<le> 90) \<or> (192 \<le> n \<and> n \<le> 222 \<and> n \<noteq> 215)
         then char_of (n + 32) else c)"

definition toLowerCase :: "string \<Rightarrow> string" where
  "toLowerCase s = map lower_char s"

definition is_space :: "char \<Rightarrow> bool" where
  "is_space c = ((of_char c :: nat) \<in> {9, 10, 11, 12, 13, 32, 160})"

definition trim :: "string \<Rightarrow> string" where
  "trim s = rev (dropWhile is_space (rev (dropWhile is_space s)))"

text \<open>\<^verbatim>\<open>s.includes(q)\<close>: \<open>q\<close> starts at some position of \<open>s\<close>.\<close>

fun includes' :: "string \<Rightarrow> string \<Rightarrow> bool" where
  "includes' [] q = (q = [])"
| "includes' (c # cs) q = (prefix q (c # cs) \<or> includes' cs q)"

text \<open>
  \<^verbatim>\<open>Date.parse\<close> and \<^verbatim>\<open>Date.prototype.toISOString\<close> belong to the host and are
  parameters of the model.  Times are milliseconds since the epoch; \<open>None\<close> is \<^verbatim>\<open>NaN\<close>.
\<close>

record host =
  Date_parse :: "string \<Rightarrow> int option"
  toISOString :: "int \<Rightarrow> string"

section \<open>Notes\<close>

text \<open>
  Modelled from the spec: the \<^verbatim>\<open>Note\<close> interface of \<^verbatim>\<open>models/note.model.ts\<close>, which is
  not among the sources.  A note has the six fields the spec's data model lists, all
  present; they are the fields \<^verbatim>\<open>createNote\<close>, \<^verbatim>\<open>seedNotes\<close> and \<^verbatim>\<open>sanitizeNotes\<close>
  build.  The field \<^verbatim>\<open>id\<close> is \<open>id'\<close> here.
\<close>

record Note =
  id' :: string
  title :: string
  content :: string
  tags :: "string list"
  createdAt :: string
  updatedAt :: string

text \<open>The argument of \<^verbatim>\<open>createNote\<close>: \<^verbatim>\<open>{ title: string; content?: string; tags?: string[] }\<close>.\<close>

datatype payload =
  Payload (title_of: string) (content_of: "string option") (tags_of: "string list option")

text \<open>The service: the environment its \<^verbatim>\<open>StorageService\<close> reaches, and \<^verbatim>\<open>this.notes\<close>.\<close>

record NotesService =
  env :: global
  notes' :: "Note list"

text \<open>
  A method returns what it returns or throws, together with the service as it leaves it.
\<close>

type_synonym 'a outcome = "(exn + 'a) \<times> NotesService"

subsection \<open>Helpers\<close>

text \<open>
  \<^verbatim>\<open>JSON.stringify\<close> of a note: an object with its six properties.
\<close>

definition note_json :: "Note \<Rightarrow> json" where
  "note_json n =
     JObj [(''id'', JStr (id' n)),
           (''title'', JStr (title n)),
           (''content'', JStr (content n)),
           (''tags'', JArr (map JStr (tags n))),
           (''createdAt'', JStr (createdAt n)),
           (''updatedAt'', JStr (updatedAt n))]"

definition persist :: "NotesService \<Rightarrow> unit outcome" where
  "persist s =
     (case write' (env s) NOTES_KEY (Plain (JArr (map note_json (notes' s)))) of
        Inl e \<Rightarrow> (Inl e, s)
      | Inr g \<Rightarrow> (Inr (), s\<lparr>env := g\<rparr>))"

text \<open>
  The comparator of \<^verbatim>\<open>sortDescByUpdatedAt\<close>.  \<open>timeOf\<close> is
  \<^verbatim>\<open>Date.parse(a.updatedAt || a.createdAt || 0)\<close>: the empty string is falsy, and
  \<^verbatim>\<open>Date.parse(0)\<close> parses the string \<^verbatim>\<open>"0"\<close>.  \<open>compare\<close> is \<^verbatim>\<open>tb - ta\<close>, which
  is \<^verbatim>\<open>NaN\<close> when either time is.
\<close>

definition timeOf :: "host \<Rightarrow> Note \<Rightarrow> int option" where
  "timeOf h a =
     Date_parse h
       (if updatedAt a \<noteq> [] then updatedAt a
        else if createdAt a \<noteq> [] then createdAt a
        else ''0'')"

definition compare :: "host \<Rightarrow> Note \<Rightarrow> Note \<Rightarrow> int option" where
  "compare h a b =
     (case timeOf h a of
        None \<Rightarrow> None
      | Some ta \<Rightarrow> (case timeOf h b of None \<Rightarrow> None | Some tb \<Rightarrow> Some (tb - ta)))"

text \<open>
  \<^verbatim>\<open>Array.prototype.sort\<close> with a comparator: \<open>a\<close> goes behind \<open>b\<close> when the comparator
  is positive on \<open>(a, b)\<close>; \<^verbatim>\<open>NaN\<close> counts as \<^verbatim>\<open>+0\<close>.  The sort is stable, so on a
  consistent comparator its result is the one a stable insertion sort gives; on any
  other comparator the order is left to the implementation, and the insertion sort is
  one such implementation.
\<close>

definition behind :: "('a \<Rightarrow> 'a \<Rightarrow> int option) \<Rightarrow> 'a \<Rightarrow> 'a \<Rightarrow> bool" where
  "behind cmp a b = (case cmp a b of None \<Rightarrow> False | Some v \<Rightarrow> 0 < v)"

fun insert_by :: "('a \<Rightarrow> 'a \<Rightarrow> int option) \<Rightarrow> 'a \<Rightarrow> 'a list \<Rightarrow> 'a list" where
  "insert_by cmp a [] = [a]"
| "insert_by cmp a (b # bs) =
     (if behind cmp a b then b # insert_by cmp a bs else a # b # bs)"

definition sort_by :: "('a \<Rightarrow> 'a \<Rightarrow> int option) \<Rightarrow> 'a list \<Rightarrow> 'a list" where
  "sort_by cmp xs = foldr (insert_by cmp) xs []"

definition sortDescByUpdatedAt :: "host \<Rightarrow> Note list \<Rightarrow> Note list" where
  "sortDescByUpdatedAt h list = sort_by (compare h) list"

text \<open>
  Truthiness and \<^verbatim>\<open>String(v)\<close> of a JSON value; a property that is missing reads as
  \<^verbatim>\<open>undefined\<close>, here \<open>None\<close>.
\<close>

fun truthy :: "json option \<Rightarrow> bool" where
  "truthy None = False"
| "truthy (Some JNull) = False"
| "truthy (Some (JBool b)) = b"
| "truthy (Some (JNum n)) = (n \<noteq> ''0'')"
| "truthy (Some (JStr s)) = (s \<noteq> [])"
| "truthy (Some (JArr _)) = True"
| "truthy (Some (JObj _)) = True"

fun join :: "string list \<Rightarrow> string" where
  "join [] = []"
| "join [s] = s"
| "join (s # t # ss) = s @ '','' @ join (t # ss)"

fun String :: "json \<Rightarrow> string" where
  "String JNull = ''null''"
| "String (JBool b) = (if b then ''true'' else ''false'')"
| "String (JNum n) = n"
| "String (JStr s) = s"
| "String (JArr xs) = join (map (\<lambda>x. if x = JNull then [] else String x) xs)"
| "String (JObj _) = ''[object Object]''"

definition String_opt :: "json option \<Rightarrow> string" where
  "String_opt v = (case v of None \<Rightarrow> ''undefined'' | Some j \<Rightarrow> String j)"

text \<open>
  One step of the \<^verbatim>\<open>map\<close> in \<^verbatim>\<open>sanitizeNotes\<close>; \<open>None\<close> is the \<^verbatim>\<open>null\<close> the
  \<^verbatim>\<open>filter\<close> then drops.  Only an object or an array passes
  \<^verbatim>\<open>!n || typeof n !== 'object'\<close>, and an array has none of the four properties.
\<close>

definition sanitize_item :: "json \<Rightarrow> Note option" where
  "sanitize_item x =
     (case x of
        JObj fs \<Rightarrow>
          (let n = map_of fs
           in if \<not> truthy (n ''id'') \<or> \<not> truthy (n ''title'')
                 \<or> \<not> truthy (n ''createdAt'') \<or> \<not> truthy (n ''updatedAt'')
              then None
              else Some \<lparr> id' = String_opt (n ''id''),
                          title = String_opt (n ''title''),
                          content = (case n ''content'' of Some (JStr c) \<Rightarrow> c | _ \<Rightarrow> []),
                          tags = (case n ''tags'' of Some (JArr ts) \<Rightarrow> map String ts | _ \<Rightarrow> []),
                          createdAt = String_opt (n ''createdAt''),
                          updatedAt = String_opt (n ''updatedAt'') \<rparr>)
      | _ \<Rightarrow> None)"

definition sanitizeNotes :: "json \<Rightarrow> Note list" where
  "sanitizeNotes xs =
     (case xs of
        JArr ys \<Rightarrow> List.map_filter sanitize_item ys
      | _ \<Rightarrow> [])"

text \<open>
  \<^verbatim>\<open>generateId\<close>: \<open>stamp\<close> is the text of \<^verbatim>\<open>Date.now()\<close> and \<open>rnd\<close> the text
  \<^verbatim>\<open>Math.random().toString(36)\<close>, of which \<^verbatim>\<open>slice(2, 8)\<close> keeps six characters.
\<close>

definition generateId :: "string \<times> string \<Rightarrow> string" where
  "generateId src = (case src of (stamp, rnd) \<Rightarrow> stamp @ ''-'' @ take 6 (drop 2 rnd))"

definition seedNotes :: "host \<Rightarrow> int \<Rightarrow> string \<times> string \<Rightarrow> string \<times> string \<Rightarrow> Note list" where
  "seedNotes h now src1 src2 =
     (let note1Time = toISOString h (now - 1000 * 60 * 60);
          note2Time = toISOString h (now - 1000 * 60 * 10);
          sample =
            [\<lparr> id' = generateId src1,
                title = ''Welcome to Notes'',
                content = ''This is your first note. Use the app to create, edit, search, and delete notes. Your notes are stored locally in your browser.'',
                tags = [''welcome'', ''getting-started''],
                createdAt = note1Time,
                updatedAt = note1Time \<rparr>,
             \<lparr> id' = generateId src2,
                title = ''Tips'',
                content = ''Use the search to quickly find notes by title, content, or tags. Notes are sorted by most recently updated.'',
                tags = [''tips'', ''productivity''],
                createdAt = note2Time,
                updatedAt = note2Time \<rparr>]
      in sortDescByUpdatedAt h sample)"

subsection \<open>The constructor\<close>

text \<open>
  \<open>now\<close> is the clock when \<^verbatim>\<open>seedNotes\<close> runs, \<open>src1\<close> and \<open>src2\<close> feed its two
  \<^verbatim>\<open>generateId\<close> calls.
\<close>

definition constructor ::
  "host \<Rightarrow> int \<Rightarrow> string \<times> string \<Rightarrow> string \<times> string \<Rightarrow> global \<Rightarrow> unit outcome" where
  "constructor h now src1 src2 g =
     (let this = \<lparr> env = g, notes' = [] \<rparr>
      in case read g NOTES_KEY of
           Inl e \<Rightarrow> (Inl e, this)
         | Inr stored \<Rightarrow>
             (case stored of
                JArr (x # xs) \<Rightarrow>
                  (Inr (), this\<lparr>notes' := sortDescByUpdatedAt h (sanitizeNotes stored)\<rparr>)
              | _ \<Rightarrow> persist (this\<lparr>notes' := seedNotes h now src1 src2\<rparr>)))"

subsection \<open>The public interface\<close>

definition matches :: "string \<Rightarrow> Note \<Rightarrow> bool" where
  "matches q n =
     (let inTitle = includes' (toLowerCase (title n)) q;
          inContent = includes' (toLowerCase (content n)) q;
          inTags = list_ex (\<lambda>t. includes' (toLowerCase t) q) (tags n)
      in inTitle \<or> inContent \<or> inTags)"

definition listNotes :: "host \<Rightarrow> string option \<Rightarrow> NotesService \<Rightarrow> Note list" where
  "listNotes h query s =
     (let list = sortDescByUpdatedAt h (notes' s)
      in case query of
           None \<Rightarrow> list
         | Some query' \<Rightarrow>
             if query' = [] then list
             else (let q = trim (toLowerCase query')
                   in if q = [] then list else filter (matches q) list))"

definition getNote :: "string \<Rightarrow> NotesService \<Rightarrow> Note option" where
  "getNote i s = find (\<lambda>n. id' n = i) (notes' s)"

text \<open>\<open>now\<close> is the clock, \<open>src\<close> feeds \<^verbatim>\<open>generateId\<close>.\<close>

definition createNote ::
  "host \<Rightarrow> int \<Rightarrow> string \<times> string \<Rightarrow> payload \<Rightarrow> NotesService \<Rightarrow> Note outcome" where
  "createNote h now src p s =
     (let now' = toISOString h now;
          n = \<lparr> id' = generateId src,
                title = title_of p,
                content = (case content_of p of None \<Rightarrow> [] | Some c \<Rightarrow> c),
                tags = (case tags_of p of None \<Rightarrow> [] | Some ts \<Rightarrow> ts),
                createdAt = now',
                updatedAt = now' \<rparr>;
          s1 = s\<lparr>notes' := sortDescByUpdatedAt h (n # notes' s)\<rparr>
      in case persist s1 of
           (Inl e, s2) \<Rightarrow> (Inl e, s2)
         | (Inr _, s2) \<Rightarrow> (Inr n, s2))"

text \<open>\<^verbatim>\<open>findIndex\<close>: the first position where the predicate holds, or \<open>-1\<close>.\<close>

fun findIndex :: "('a \<Rightarrow> bool) \<Rightarrow> 'a list \<Rightarrow> int" where
  "findIndex P [] = -1"
| "findIndex P (x # xs) =
     (if P x then 0 else (let i = findIndex P xs in if i = -1 then -1 else i + 1))"

text \<open>
  The object spread \<^verbatim>\<open>{ ...a, ...b }\<close>: every property of \<open>b\<close> replaces the one of
  \<open>a\<close>, and a \<^verbatim>\<open>Note\<close> has all six.
\<close>

definition spread :: "Note \<Rightarrow> Note \<Rightarrow> Note" where
  "spread a b =
     a\<lparr> id' := id' b, title := title b, content := content b, tags := tags b,
        createdAt := createdAt b, updatedAt := updatedAt b \<rparr>"

definition updateNote :: "host \<Rightarrow> int \<Rightarrow> Note \<Rightarrow> NotesService \<Rightarrow> Note outcome" where
  "updateNote h now n s =
     (let idx = findIndex (\<lambda>m. id' m = id' n) (notes' s)
      in if idx = -1 then (Inl (Error ''Note not found''), s)
         else
           (let now' = toISOString h now;
                updated = (spread (notes' s ! nat idx) n)\<lparr>updatedAt := now'\<rparr>;
                s1 = s\<lparr>notes' := sortDescByUpdatedAt h ((notes' s)[nat idx := updated])\<rparr>
            in case persist s1 of
                 (Inl e, s2) \<Rightarrow> (Inl e, s2)
               | (Inr _, s2) \<Rightarrow> (Inr updated, s2)))"

definition deleteNote :: "string \<Rightarrow> NotesService \<Rightarrow> unit outcome" where
  "deleteNote i s =
     (let before = length (notes' s);
          s1 = s\<lparr>notes' := filter (\<lambda>n. id' n \<noteq> i) (notes' s)\<rparr>
      in if length (notes' s1) \<noteq> before then persist s1 else (Inr (), s1))"

section \<open>Properties stated in the spec's words\<close>

text \<open>
  The numeric comparison \<^verbatim>\<open>a >= b\<close> of two times, false when either is \<^verbatim>\<open>NaN\<close>.
\<close>

definition time_ge :: "int option \<Rightarrow> int option \<Rightarrow> bool" where
  "time_ge a b = (case a of None \<Rightarrow> False | Some x \<Rightarrow> (case b of None \<Rightarrow> False | Some y \<Rightarrow> y \<le> x))"

text \<open>The timestamp of a note's \<^verbatim>\<open>updatedAt\<close>.\<close>

definition updatedTime :: "host \<Rightarrow> Note \<Rightarrow> int option" where
  "updatedTime h n = Date_parse h (updatedAt n)"

text \<open>
  A note whose \<^verbatim>\<open>updatedAt\<close> is a date: a non-empty string that \<^verbatim>\<open>Date.parse\<close> reads.
\<close>

definition dated :: "host \<Rightarrow> Note \<Rightarrow> bool" where
  "dated h n = (updatedAt n \<noteq> [] \<and> Date_parse h (updatedAt n) \<noteq> None)"

text \<open>
  The search of the spec: the query is a substring of the lower-cased title, of the
  lower-cased content, or of some lower-cased tag.
\<close>

definition spec_matches :: "string \<Rightarrow> Note \<Rightarrow> bool" where
  "spec_matches q n =
     (sublist q (toLowerCase (title n)) \<or> sublist q (toLowerCase (content n))
      \<or> (\<exists>t \<in> set (tags n). sublist q (toLowerCase t)))"

text \<open>
  A note that \<^verbatim>\<open>sanitizeNotes\<close> keeps: the four fields it tests are not empty.
\<close>

definition storable :: "Note \<Rightarrow> bool" where
  "storable n = (id' n \<noteq> [] \<and> title n \<noteq> [] \<and> createdAt n \<noteq> [] \<and> updatedAt n \<noteq> [])"

section \<open>Example data\<close>

text \<open>
  A fragment of the host's date functions, for the examples: four instants, 00:00, 00:50
  and 01:00 on 1 January 2024 and 00:00 on 1 January 2030, with the strings
  \<^verbatim>\<open>toISOString\<close> prints for them.  The examples use no other instant, and the other
  strings they use are no dates.
\<close>

definition example_host :: host where
  "example_host =
     \<lparr> Date_parse = (\<lambda>s.
         if s = ''2024-01-01T00:00:00.000Z'' then Some 1704067200000
         else if s = ''2024-01-01T00:50:00.000Z'' then Some 1704070200000
         else if s = ''2024-01-01T01:00:00.000Z'' then Some 1704070800000
         else if s = ''2030-01-01T00:00:00.000Z'' then Some 1893456000000
         else None),
       toISOString = (\<lambda>t.
         if t = 1704067200000 then ''2024-01-01T00:00:00.000Z''
         else if t = 1704070200000 then ''2024-01-01T00:50:00.000Z''
         else if t = 1704070800000 then ''2024-01-01T01:00:00.000Z''
         else if t = 1893456000000 then ''2030-01-01T00:00:00.000Z''
         else ''Invalid Date'') \<rparr>"

definition welcome_note :: Note where
  "welcome_note =
     \<lparr> id' = ''1704067200000-k3x9qa'', title = ''Welcome to Notes'', content = ''Hello'',
       tags = [''welcome''],
       createdAt = ''2024-01-01T00:00:00.000Z'', updatedAt = ''2024-01-01T00:00:00.000Z'' \<rparr>"

definition tips_note :: Note where
  "tips_note =
     \<lparr> id' = ''1704070200000-p0z1mb'', title = ''Tips'', content = ''Search finds notes'',
       tags = [''tips''],
       createdAt = ''2024-01-01T00:50:00.000Z'', updatedAt = ''2024-01-01T00:50:00.000Z'' \<rparr>"

text \<open>A \<^verbatim>\<open>localStorage\<close> with the given entries, none of whose methods raises.\<close>

definition storage_with :: "(string \<Rightarrow> stored option) \<Rightarrow> local_storage" where
  "storage_with m =
     \<lparr> items = m, getItem_raises = (\<lambda>_. False), setItem_raises = (\<lambda>_ _. False),
       removeItem_raises = (\<lambda>_. False) \<rparr>"

text \<open>Two services over an empty \<^verbatim>\<open>localStorage\<close>, their collections sorted.\<close>

definition one_note :: NotesService where
  "one_note = \<lparr> env = LS (storage_with Map.empty), notes' = [welcome_note] \<rparr>"

definition two_notes :: NotesService where
  "two_notes = \<lparr> env = LS (storage_with Map.empty), notes' = [tips_note, welcome_note] \<rparr>"

text \<open>
  A note read from a store that was written under another clock: its \<^verbatim>\<open>updatedAt\<close> is
  in 2030.
\<close>

definition late_note :: Note where
  "late_note = welcome_note\<lparr>updatedAt := ''2030-01-01T00:00:00.000Z''\<rparr>"

text \<open>
  What one \<^verbatim>\<open>generateId\<close> call reads at 01:00 on 1 January 2024: the text of
  \<^verbatim>\<open>Date.now()\<close> and of \<^verbatim>\<open>Math.random().toString(36)\<close>.
\<close>

definition id_source :: "string \<times> string" where
  "id_source = (''1704070800000'', ''0.w8r2tcz41f'')"

definition id_source2 :: "string \<times> string" where
  "id_source2 = (''1704070800000'', ''0.b5n7yqd03k'')"

text \<open>A stored payload that is a sequence of one object without an id.\<close>

definition invalid_payload :: json where
  "invalid_payload = JArr [JObj [(''title'', JStr ''No id'')]]"

text \<open>
  A note whose \<^verbatim>\<open>updatedAt\<close> is no date, and a store that holds it between the two
  dated notes.  \<^verbatim>\<open>sanitizeNotes\<close> tests the field for truthiness only, so the
  constructor loads all three; \<open>loaded\<close> is the service it builds from that store.
\<close>

definition undated_note :: Note where
  "undated_note =
     \<lparr> id' = ''1704069000000-m4e7ux'', title = ''Meeting'', content = ''Agenda'', tags = [],
       createdAt = ''x'', updatedAt = ''x'' \<rparr>"

definition mixed_store :: global where
  "mixed_store =
     LS (storage_with
       [NOTES_KEY \<mapsto>
          JSON_text (JArr [note_json welcome_note, note_json undated_note, note_json tips_note])])"

definition loaded :: NotesService where
  "loaded = snd (constructor example_host 1704070800000 id_source id_source2 mixed_store)"

text \<open>
  A stored note that already carries the id \<^verbatim>\<open>generateId\<close> makes from \<open>id_source\<close>, last
  updated in 2030.
\<close>

definition clash_note :: Note where
  "clash_note = late_note\<lparr>id' := ''1704070800000-w8r2tc''\<rparr>"

section \<open>Auxiliary facts\<close>

subsection \<open>The storage adapter in closed form\<close>

lemma storage_eq: "storage g = Inr (case g of LS ls \<Rightarrow> Some ls | _ \<Rightarrow> None)"
  by (cases g) (simp_all add: storage_def try_catch_def)

lemma read_eq:
  "read g key =
     Inr (case g of
            LS ls \<Rightarrow>
              (if getItem_raises ls key then JNull
               else case items ls key of
                      None \<Rightarrow> JNull
                    | Some (JSON_text j) \<Rightarrow> j
                    | Some (Other_text _) \<Rightarrow> JNull)
          | _ \<Rightarrow> JNull)"
  by (cases g)
     (simp_all add: read_def storage_eq exn_bind_def try_catch_def getItem_def JSON_parse_def
        split: option.splits stored.splits)

lemma write_eq:
  "write' g key v =
     Inr (case g of
            LS ls \<Rightarrow>
              (case JSON_stringify v of
                 Inl _ \<Rightarrow> g
               | Inr payload \<Rightarrow>
                   if setItem_raises ls key payload then g
                   else LS (ls\<lparr>items := (items ls)(key \<mapsto> payload)\<rparr>))
          | _ \<Rightarrow> g)"
  by (cases g)
     (simp_all add: write'_def storage_eq exn_bind_def try_catch_def setItem_def
        split: sum.splits)

lemma remove_eq:
  "remove g key =
     Inr (case g of
            LS ls \<Rightarrow>
              (if removeItem_raises ls key then g
               else LS (ls\<lparr>items := (items ls)(key := None)\<rparr>))
          | _ \<Rightarrow> g)"
  by (cases g)
     (simp_all add: remove_def storage_eq exn_bind_def try_catch_def removeItem_def)

lemma persist_eq:
  "persist s =
     (Inr (),
      s\<lparr>env :=
           (case env s of
              LS ls \<Rightarrow>
                (if setItem_raises ls NOTES_KEY (JSON_text (JArr (map note_json (notes' s))))
                 then env s
                 else LS (ls\<lparr>items := (items ls)(NOTES_KEY \<mapsto>
                              JSON_text (JArr (map note_json (notes' s))))\<rparr>))
            | _ \<Rightarrow> env s)\<rparr>)"
  by (simp add: persist_def write_eq JSON_stringify_def split: global.splits)

subsection \<open>Searching the collection\<close>

lemma findIndex_lower: "- 1 \<le> findIndex P xs"
  by (induction xs) (auto simp: Let_def)

lemma findIndex_none: "findIndex P xs = - 1 \<longleftrightarrow> (\<forall>x \<in> set xs. \<not> P x)"
proof (induction xs)
  case Nil
  then show ?case by simp
next
  case (Cons x xs)
  have "- 1 \<le> findIndex P xs" by (rule findIndex_lower)
  with Cons show ?case by (auto simp: Let_def)
qed

lemma findIndex_found:
  "findIndex P xs \<noteq> - 1 \<Longrightarrow>
     0 \<le> findIndex P xs \<and> nat (findIndex P xs) < length xs \<and> P (xs ! nat (findIndex P xs))
     \<and> find P xs = Some (xs ! nat (findIndex P xs))"
proof (induction xs)
  case Nil
  then show ?case by simp
next
  case (Cons x xs)
  show ?case
  proof (cases "P x")
    case True
    then show ?thesis by simp
  next
    case False
    with Cons.prems have ne: "findIndex P xs \<noteq> - 1" by (auto simp: Let_def split: if_splits)
    from Cons.IH [OF ne] False ne show ?thesis
      by (auto simp: Let_def nat_add_distrib)
  qed
qed

subsection \<open>White space and case\<close>

lemma lower_char_space: "is_space c \<Longrightarrow> lower_char c = c"
  by (auto simp: is_space_def lower_char_def Let_def)

lemma trim_spaces: "\<forall>c \<in> set q. is_space c \<Longrightarrow> trim (toLowerCase q) = []"
proof -
  assume a: "\<forall>c \<in> set q. is_space c"
  then have lq: "toLowerCase q = q"
    by (simp add: toLowerCase_def lower_char_space map_idI)
  have dw: "dropWhile is_space q = []" using a by simp
  show ?thesis unfolding trim_def lq dw by simp
qed

subsection \<open>Sorting\<close>

lemma mset_insert_by: "mset (insert_by cmp a bs) = add_mset a (mset bs)"
  by (induction bs) simp_all

lemma mset_sort_by: "mset (sort_by cmp xs) = mset xs"
  by (induction xs) (simp_all add: sort_by_def mset_insert_by)

lemma set_insert_by: "set (insert_by cmp a bs) = insert a (set bs)"
  by (induction bs) auto

lemma set_sort_by: "set (sort_by cmp xs) = set xs"
  by (induction xs) (simp_all add: sort_by_def set_insert_by)

lemma mset_sortDesc: "mset (sortDescByUpdatedAt h xs) = mset xs"
  by (simp add: sortDescByUpdatedAt_def mset_sort_by)

lemma set_sortDesc: "set (sortDescByUpdatedAt h xs) = set xs"
  by (simp add: sortDescByUpdatedAt_def set_sort_by)

lemma dated_timeOf: "dated h n \<Longrightarrow> timeOf h n = updatedTime h n"
  by (simp add: dated_def timeOf_def updatedTime_def)

lemma dated_behind:
  "dated h a \<Longrightarrow> dated h b \<Longrightarrow>
     behind (compare h) a b = (\<not> time_ge (updatedTime h a) (updatedTime h b))"
  by (auto simp: behind_def compare_def dated_timeOf time_ge_def dated_def updatedTime_def
        split: option.splits)

lemma time_ge_trans:
  "time_ge a b \<Longrightarrow> time_ge b c \<Longrightarrow> time_ge a c"
  by (auto simp: time_ge_def split: option.splits)

lemma time_ge_total:
  "dated h a \<Longrightarrow> dated h b \<Longrightarrow> \<not> time_ge (updatedTime h a) (updatedTime h b)
     \<Longrightarrow> time_ge (updatedTime h b) (updatedTime h a)"
  by (auto simp: time_ge_def dated_def updatedTime_def split: option.splits)

lemma sorted_insert_by:
  assumes "dated h a" and "\<forall>b \<in> set bs. dated h b"
    and "sorted_wrt (\<lambda>x y. time_ge (updatedTime h x) (updatedTime h y)) bs"
  shows "sorted_wrt (\<lambda>x y. time_ge (updatedTime h x) (updatedTime h y))
           (insert_by (compare h) a bs)"
  using assms
proof (induction bs)
  case Nil
  then show ?case by simp
next
  case (Cons b bs)
  show ?case
  proof (cases "behind (compare h) a b")
    case True
    with Cons.prems have "time_ge (updatedTime h b) (updatedTime h a)"
      by (simp add: dated_behind time_ge_total)
    with True Cons show ?thesis
      by (auto simp: set_insert_by)
  next
    case False
    with Cons.prems have ab: "time_ge (updatedTime h a) (updatedTime h b)"
      by (simp add: dated_behind)
    have "\<forall>y \<in> set bs. time_ge (updatedTime h a) (updatedTime h y)"
      using ab Cons.prems(3) by (auto intro: time_ge_trans)
    with False ab Cons.prems show ?thesis by simp
  qed
qed

lemma sorted_sortDesc:
  "\<forall>n \<in> set xs. dated h n \<Longrightarrow>
     sorted_wrt (\<lambda>x y. time_ge (updatedTime h x) (updatedTime h y)) (sortDescByUpdatedAt h xs)"
proof (induction xs)
  case Nil
  then show ?case by (simp add: sortDescByUpdatedAt_def sort_by_def)
next
  case (Cons x xs)
  then have "sorted_wrt (\<lambda>x y. time_ge (updatedTime h x) (updatedTime h y))
               (insert_by (compare h) x (sortDescByUpdatedAt h xs))"
    by (intro sorted_insert_by) (simp_all add: set_sortDesc)
  then show ?case by (simp add: sortDescByUpdatedAt_def sort_by_def)
qed

text \<open>
  When every note has a time, the comparator is consistent and the sort is the stable
  sort of the library on the negated times.
\<close>

lemma insert_by_insort_key:
  assumes "timeOf h a \<noteq> None" and "\<forall>b \<in> set bs. timeOf h b \<noteq> None"
  shows "insert_by (compare h) a bs = insort_key (\<lambda>n. - the (timeOf h n)) a bs"
  using assms
  by (induction bs) (auto simp: behind_def compare_def split: option.splits)

lemma sortDesc_sort_key:
  assumes "\<forall>n \<in> set xs. timeOf h n \<noteq> None"
  shows "sortDescByUpdatedAt h xs = sort_key (\<lambda>n. - the (timeOf h n)) xs"
  using assms
proof (induction xs)
  case Nil
  then show ?case by (simp add: sortDescByUpdatedAt_def sort_by_def)
next
  case (Cons x xs)
  then have "sortDescByUpdatedAt h xs = sort_key (\<lambda>n. - the (timeOf h n)) xs"
    by simp
  moreover have "insert_by (compare h) x (sort_key (\<lambda>n. - the (timeOf h n)) xs)
      = insort_key (\<lambda>n. - the (timeOf h n)) x (sort_key (\<lambda>n. - the (timeOf h n)) xs)"
    using Cons.prems by (intro insert_by_insort_key) simp_all
  ultimately show ?case
    by (simp add: sortDescByUpdatedAt_def sort_by_def)
qed

subsection \<open>Searching text\<close>

lemma includes_sublist: "includes' s q = sublist q s"
  by (induction s) (simp_all add: sublist_Cons_right)

lemma matches_spec: "matches q n = spec_matches q n"
  by (simp add: matches_def spec_matches_def includes_sublist list_ex_iff)

lemma is_space_lower_char: "is_space (lower_char c) = is_space c"
  by (auto simp: is_space_def lower_char_def Let_def)

lemma dropWhile_toLowerCase:
  "dropWhile is_space (toLowerCase s) = toLowerCase (dropWhile is_space s)"
  by (induction s) (simp_all add: toLowerCase_def is_space_lower_char)

lemma trim_toLowerCase: "trim (toLowerCase s) = toLowerCase (trim s)"
proof -
  have r: "rev (toLowerCase t) = toLowerCase (rev t)" for t
    by (simp add: toLowerCase_def rev_map)
  show ?thesis
    by (simp add: trim_def dropWhile_toLowerCase r)
qed

lemma trim_nonempty:
  assumes "trim query \<noteq> []"
  shows "query \<noteq> [] \<and> trim (toLowerCase query) \<noteq> []"
proof -
  have "query \<noteq> []" using assms by (auto simp: trim_def)
  moreover have "trim (toLowerCase query) \<noteq> []"
    unfolding trim_toLowerCase using assms by (simp add: toLowerCase_def)
  ultimately show ?thesis by simp
qed

subsection \<open>Looking a note up by its id\<close>

lemma find_unique:
  "x \<in> set xs \<Longrightarrow> P x \<Longrightarrow> \<forall>y \<in> set xs. P y \<longrightarrow> y = x \<Longrightarrow> find P xs = Some x"
proof (induction xs)
  case Nil
  then show ?case by simp
next
  case (Cons a xs)
  show ?case
  proof (cases "P a")
    case True
    from Cons.prems(3) True have "a = x" by (meson list.set_intros(1))
    with True show ?thesis by simp
  next
    case False
    from Cons.prems(1,2) False have x: "x \<in> set xs" by (metis set_ConsD)
    from Cons.prems(3) have "\<forall>y \<in> set xs. P y \<longrightarrow> y = x" by (meson list.set_intros(2))
    from Cons.IH [OF x Cons.prems(2) this] False show ?thesis by simp
  qed
qed

lemma update_distinct_unique:
  assumes d: "distinct (map f xs)" and i: "i < length xs" and fu: "f u = f (xs ! i)"
    and y: "y \<in> set (xs[i := u])" and fy: "f y = f u"
  shows "y = u"
proof -
  from y obtain j where j: "j < length xs" "y = xs[i := u] ! j"
    by (auto simp: in_set_conv_nth)
  show ?thesis
  proof (cases "j = i")
    case True
    with j i show ?thesis by simp
  next
    case False
    with j have "y = xs ! j" by simp
    with fy fu have e: "map f xs ! j = map f xs ! i" using i j by simp
    have "j < length (map f xs)" "i < length (map f xs)" using i j by simp_all
    from nth_eq_iff_index_eq [OF d this] e have "j = i" by blast
    with False show ?thesis by simp
  qed
qed

subsection \<open>The constructor in closed form\<close>

lemma constructor_eq:
  "constructor h now src1 src2 g =
     (case read g NOTES_KEY of
        Inr (JArr (x # xs)) \<Rightarrow>
          (Inr (), \<lparr> env = g, notes' = sortDescByUpdatedAt h (sanitizeNotes (JArr (x # xs))) \<rparr>)
      | _ \<Rightarrow> persist \<lparr> env = g, notes' = seedNotes h now src1 src2 \<rparr>)"
  by (simp add: constructor_def read_eq split: json.splits list.splits)

lemma sortDesc_Nil: "sortDescByUpdatedAt h [] = []"
  by (simp add: sortDescByUpdatedAt_def sort_by_def)

lemma mset_seedNotes:
  "mset (seedNotes h now src1 src2) =
     {# \<lparr> id' = generateId src1,
          title = ''Welcome to Notes'',
          content = ''This is your first note. Use the app to create, edit, search, and delete notes. Your notes are stored locally in your browser.'',
          tags = [''welcome'', ''getting-started''],
          createdAt = toISOString h (now - 3600000),
          updatedAt = toISOString h (now - 3600000) \<rparr>,
        \<lparr> id' = generateId src2,
          title = ''Tips'',
          content = ''Use the search to quickly find notes by title, content, or tags. Notes are sorted by most recently updated.'',
          tags = [''tips'', ''productivity''],
          createdAt = toISOString h (now - 600000),
          updatedAt = toISOString h (now - 600000) \<rparr> #}"
  by (simp add: seedNotes_def Let_def mset_sortDesc)

subsection \<open>Reading back what was written\<close>

lemma sanitize_note_json: "storable n \<Longrightarrow> sanitize_item (note_json n) = Some n"
  by (simp add: storable_def sanitize_item_def note_json_def String_opt_def comp_def)

lemma sanitizeNotes_json:
  "\<forall>n \<in> set ns. storable n \<Longrightarrow> sanitizeNotes (JArr (map note_json ns)) = ns"
  by (induction ns) (simp_all add: sanitizeNotes_def List.map_filter_simps sanitize_note_json)

text \<open>
  The notes the service makes itself are kept when read back: an id is never empty, and
  a note created with a title that is not empty, at a time the host prints, is
  \<open>storable\<close> like the seed notes.
\<close>

lemma generateId_nonempty: "generateId src \<noteq> []"
  by (cases src) (simp add: generateId_def)

lemma createNote_notes:
  "notes' (snd (createNote h now src p s)) =
     sortDescByUpdatedAt h
       (\<lparr> id' = generateId src, title = title_of p,
          content = (case content_of p of None \<Rightarrow> [] | Some c \<Rightarrow> c),
          tags = (case tags_of p of None \<Rightarrow> [] | Some ts \<Rightarrow> ts),
          createdAt = toISOString h now, updatedAt = toISOString h now \<rparr> # notes' s)"
  by (simp add: createNote_def Let_def persist_eq)

lemma createNote_storable:
  assumes "title_of p \<noteq> []" and "toISOString h now \<noteq> []"
    and "list_all storable (notes' s)"
  shows "list_all storable (notes' (snd (createNote h now src p s)))"
  using assms
  by (simp add: createNote_notes list_all_iff set_sortDesc storable_def generateId_nonempty)

lemma seedNotes_storable:
  assumes "toISOString h (now - 3600000) \<noteq> []" and "toISOString h (now - 600000) \<noteq> []"
  shows "list_all storable (seedNotes h now src1 src2)"
  using assms
  by (simp add: seedNotes_def Let_def list_all_iff set_sortDesc storable_def generateId_nonempty)

section \<open>The storage adapter never throws\<close>

text \<open>
  Claim C8.  For every key and every state of the underlying store, \<open>read\<close>, \<open>write'\<close>
  and \<open>remove\<close> return and never throw; and \<open>read\<close> returns \<^verbatim>\<open>null\<close> when the store
  is unavailable, when \<^verbatim>\<open>getItem\<close> raises, when the key is absent, and when the payload
  fails JSON decoding.
\<close>

theorem storage_adapter_total:
  "(\<exists>v. read g key = Inr v) \<and> (\<exists>g'. write' g key x = Inr g') \<and> (\<exists>g'. remove g key = Inr g')
   \<and> (storage g = Inr None \<longrightarrow> read g key = Inr JNull)
   \<and> (storage g = Inr (Some ls) \<and> getItem ls key = Inl e \<longrightarrow> read g key = Inr JNull)
   \<and> (storage g = Inr (Some ls) \<and> getItem ls key = Inr None \<longrightarrow> read g key = Inr JNull)
   \<and> (storage g = Inr (Some ls) \<and> getItem ls key = Inr (Some raw) \<and> JSON_parse raw = Inl e'
        \<longrightarrow> read g key = Inr JNull)"
proof -
  have "\<exists>v. read g key = Inr v" by (simp add: read_eq)
  moreover have "\<exists>g'. write' g key x = Inr g'" by (simp add: write_eq)
  moreover have "\<exists>g'. remove g key = Inr g'" by (simp add: remove_eq)
  moreover have "read g key = Inr JNull" if "storage g = Inr None"
    using that by (cases g) (simp_all add: read_eq storage_eq)
  moreover have "read g key = Inr JNull"
    if "storage g = Inr (Some ls) \<and> getItem ls key = Inl e"
    using that by (cases g) (simp_all add: read_eq storage_eq getItem_def split: if_splits)
  moreover have "read g key = Inr JNull"
    if "storage g = Inr (Some ls) \<and> getItem ls key = Inr None"
    using that by (cases g) (simp_all add: read_eq storage_eq getItem_def split: if_splits)
  moreover have "read g key = Inr JNull"
    if "storage g = Inr (Some ls) \<and> getItem ls key = Inr (Some raw) \<and> JSON_parse raw = Inl e'"
    using that
    by (cases g; cases raw)
       (simp_all add: read_eq storage_eq getItem_def JSON_parse_def split: if_splits)
  ultimately show ?thesis by blast
qed

theorem storage_adapter_total_witness:
  "storage (Getter_raises SecurityError) = Inr None
   \<and> read (Getter_raises SecurityError) NOTES_KEY = Inr JNull
   \<and> storage (LS ((storage_with Map.empty)\<lparr>getItem_raises := \<lambda>_. True\<rparr>))
       = Inr (Some ((storage_with Map.empty)\<lparr>getItem_raises := \<lambda>_. True\<rparr>))
   \<and> getItem ((storage_with Map.empty)\<lparr>getItem_raises := \<lambda>_. True\<rparr>) NOTES_KEY
       = Inl SecurityError
   \<and> read (LS ((storage_with Map.empty)\<lparr>getItem_raises := \<lambda>_. True\<rparr>)) NOTES_KEY = Inr JNull
   \<and> storage (LS (storage_with Map.empty)) = Inr (Some (storage_with Map.empty))
   \<and> getItem (storage_with Map.empty) NOTES_KEY = Inr None
   \<and> read (LS (storage_with Map.empty)) NOTES_KEY = Inr JNull
   \<and> storage (LS (storage_with [NOTES_KEY \<mapsto> Other_text ''{oops'']))
       = Inr (Some (storage_with [NOTES_KEY \<mapsto> Other_text ''{oops'']))
   \<and> getItem (storage_with [NOTES_KEY \<mapsto> Other_text ''{oops'']) NOTES_KEY
       = Inr (Some (Other_text ''{oops''))
   \<and> JSON_parse (Other_text ''{oops'') = Inl SyntaxError
   \<and> read (LS (storage_with [NOTES_KEY \<mapsto> Other_text ''{oops''])) NOTES_KEY = Inr JNull"
  using
    storage_adapter_total [of "Getter_raises SecurityError" NOTES_KEY]
    storage_adapter_total [of "LS ((storage_with Map.empty)\<lparr>getItem_raises := \<lambda>_. True\<rparr>)"
      NOTES_KEY _ "(storage_with Map.empty)\<lparr>getItem_raises := \<lambda>_. True\<rparr>" SecurityError]
    storage_adapter_total [of "LS (storage_with Map.empty)" NOTES_KEY _ "storage_with Map.empty"]
    storage_adapter_total [of "LS (storage_with [NOTES_KEY \<mapsto> Other_text ''{oops''])" NOTES_KEY _
      "storage_with [NOTES_KEY \<mapsto> Other_text ''{oops'']" _ "Other_text ''{oops''" SyntaxError]
  by (simp add: storage_eq getItem_def JSON_parse_def storage_with_def)

section \<open>Updating and deleting a note that is not there\<close>

text \<open>
  Claim C6.  When the id of the note passed to \<open>updateNote\<close> matches no note of the
  collection, \<open>updateNote\<close> throws \<^verbatim>\<open>Error('Note not found')\<close> and leaves the service as
  it was: the collection is unchanged and nothing is written to the store.
\<close>

theorem updateNote_not_found:
  assumes "id' n \<notin> id' ` set (notes' s)"
  shows "updateNote h now n s = (Inl (Error ''Note not found''), s)"
proof -
  have "findIndex (\<lambda>m. id' m = id' n) (notes' s) = - 1"
    unfolding findIndex_none using assms by (metis imageI)
  then show ?thesis by (simp add: updateNote_def)
qed

theorem updateNote_not_found_witness:
  "id' tips_note \<notin> id' ` set (notes' \<lparr> env = LS (storage_with Map.empty), notes' = [welcome_note] \<rparr>)
   \<and> updateNote example_host 1704070800000 tips_note
         \<lparr> env = LS (storage_with Map.empty), notes' = [welcome_note] \<rparr>
       = (Inl (Error ''Note not found''),
          \<lparr> env = LS (storage_with Map.empty), notes' = [welcome_note] \<rparr>)"
  using updateNote_not_found [of tips_note
      "\<lparr> env = LS (storage_with Map.empty), notes' = [welcome_note] \<rparr>" example_host 1704070800000]
  by (simp add: tips_note_def welcome_note_def)

text \<open>
  Claim C7.  When \<open>i\<close> matches no note of the collection, \<open>deleteNote i\<close> returns
  without an error and leaves the service as it was: the collection is unchanged and
  nothing is written to the store.
\<close>

theorem deleteNote_absent:
  assumes "i \<notin> id' ` set (notes' s)"
  shows "deleteNote i s = (Inr (), s)"
proof -
  have "filter (\<lambda>n. id' n \<noteq> i) (notes' s) = notes' s"
    unfolding filter_id_conv using assms by (metis imageI)
  then show ?thesis by (simp add: deleteNote_def Let_def)
qed

theorem deleteNote_absent_witness:
  "id' tips_note \<notin> id' ` set (notes' \<lparr> env = LS (storage_with Map.empty), notes' = [welcome_note] \<rparr>)
   \<and> deleteNote (id' tips_note) \<lparr> env = LS (storage_with Map.empty), notes' = [welcome_note] \<rparr>
       = (Inr (), \<lparr> env = LS (storage_with Map.empty), notes' = [welcome_note] \<rparr>)"
  using deleteNote_absent [of "id' tips_note"
      "\<lparr> env = LS (storage_with Map.empty), notes' = [welcome_note] \<rparr>"]
  by (simp add: tips_note_def welcome_note_def)

section \<open>Listing and searching\<close>

text \<open>
  Claim C10 as stated fails.  On the loaded collection a query of one space returns
  all three notes, but not in descending order of \<^verbatim>\<open>updatedAt\<close>: the note without a date
  sits between the dated ones, and the oldest note comes first.
\<close>

theorem listNotes_whitespace_counterexample:
  "notes' loaded = [welcome_note, undated_note, tips_note]
   \<and> listNotes example_host (Some '' '') loaded = [welcome_note, undated_note, tips_note]
   \<and> map (updatedTime example_host) (listNotes example_host (Some '' '') loaded)
       = [Some 1704067200000, None, Some 1704070200000]
   \<and> \<not> time_ge (Some 1704067200000) None
   \<and> \<not> time_ge None (Some 1704070200000)
   \<and> \<not> time_ge (Some 1704067200000) (Some 1704070200000)"
  by code_simp

text \<open>
  Claim C10, as amended.  For a query made of white space only, \<open>listNotes\<close> returns
  what it returns without a query: all the notes of the collection, nothing filtered;
  and the result is in descending order of \<^verbatim>\<open>updatedAt\<close> when every note's \<^verbatim>\<open>updatedAt\<close>
  is a date.
\<close>

theorem listNotes_whitespace_query:
  assumes "\<forall>c \<in> set query. is_space c"
  shows "listNotes h (Some query) s = listNotes h None s
       \<and> mset (listNotes h (Some query) s) = mset (notes' s)
       \<and> ((\<forall>n \<in> set (notes' s). dated h n) \<longrightarrow>
            sorted_wrt (\<lambda>a b. time_ge (updatedTime h a) (updatedTime h b))
              (listNotes h (Some query) s))"
proof -
  have eq: "listNotes h (Some query) s = listNotes h None s"
    using assms by (simp add: listNotes_def trim_spaces Let_def)
  have none: "listNotes h None s = sortDescByUpdatedAt h (notes' s)"
    by (simp add: listNotes_def)
  have ms: "mset (listNotes h (Some query) s) = mset (notes' s)"
    by (simp add: eq none mset_sortDesc)
  have srt: "sorted_wrt (\<lambda>a b. time_ge (updatedTime h a) (updatedTime h b))
               (listNotes h (Some query) s)"
    if "\<forall>n \<in> set (notes' s). dated h n"
    unfolding eq none using that by (rule sorted_sortDesc)
  from eq ms srt show ?thesis by blast
qed

theorem listNotes_whitespace_query_witness:
  "list_all is_space [CHR '' '', CHR 0x09, CHR '' '']
   \<and> list_all (dated example_host) (notes' two_notes)
   \<and> listNotes example_host (Some [CHR '' '', CHR 0x09, CHR '' '']) two_notes
       = listNotes example_host None two_notes
   \<and> listNotes example_host (Some [CHR '' '', CHR 0x09, CHR '' '']) two_notes
       = [tips_note, welcome_note]
   \<and> sorted_wrt (\<lambda>a b. time_ge (updatedTime example_host a) (updatedTime example_host b))
         (listNotes example_host (Some [CHR '' '', CHR 0x09, CHR '' '']) two_notes)"
proof -
  have w: "\<forall>c \<in> set [CHR '' '', CHR 0x09, CHR '' '']. is_space c"
    by (simp add: is_space_def)
  have d: "\<forall>n \<in> set (notes' two_notes). dated example_host n" by code_simp
  have l: "listNotes example_host None two_notes = [tips_note, welcome_note]" by code_simp
  from w have w': "list_all is_space [CHR '' '', CHR 0x09, CHR '' '']"
    by (simp add: list_all_iff)
  from d have d': "list_all (dated example_host) (notes' two_notes)"
    by (simp add: list_all_iff)
  from listNotes_whitespace_query [OF w, of example_host two_notes] d
  have r: "listNotes example_host (Some [CHR '' '', CHR 0x09, CHR '' '']) two_notes
             = listNotes example_host None two_notes
           \<and> sorted_wrt (\<lambda>a b. time_ge (updatedTime example_host a) (updatedTime example_host b))
                (listNotes example_host (Some [CHR '' '', CHR 0x09, CHR '' '']) two_notes)"
    by blast
  from r l have e: "listNotes example_host (Some [CHR '' '', CHR 0x09, CHR '' '']) two_notes
                      = [tips_note, welcome_note]"
    by (simp only:)
  from w' d' r e show ?thesis by blast
qed

text \<open>
  Claim C5 as stated fails.  The constructor loads a note whose \<^verbatim>\<open>updatedAt\<close> is the
  string \<^verbatim>\<open>x\<close>; the comparator is \<^verbatim>\<open>NaN\<close> on every pair with that note, and the
  listing leaves the three notes as they were stored: of the neighbours neither pair is
  in order, and the two dated notes come oldest first.  Whatever order a sort gives, the
  undated note has a neighbour.
\<close>

theorem listNotes_sorted_counterexample:
  "read mixed_store NOTES_KEY
     = Inr (JArr [note_json welcome_note, note_json undated_note, note_json tips_note])
   \<and> notes' loaded = [welcome_note, undated_note, tips_note]
   \<and> listNotes example_host None loaded = [welcome_note, undated_note, tips_note]
   \<and> map (updatedTime example_host) (listNotes example_host None loaded)
       = [Some 1704067200000, None, Some 1704070200000]
   \<and> \<not> time_ge (updatedTime example_host welcome_note) (updatedTime example_host undated_note)
   \<and> \<not> time_ge (updatedTime example_host undated_note) (updatedTime example_host tips_note)
   \<and> \<not> time_ge (updatedTime example_host welcome_note) (updatedTime example_host tips_note)"
  by code_simp

text \<open>
  Claim C5, as amended.  For every collection whose notes all have an \<^verbatim>\<open>updatedAt\<close> that
  is a date (a non-empty string \<^verbatim>\<open>Date.parse\<close> reads), \<open>listNotes\<close> without a query
  returns all the notes, ordered so that of two neighbours the first has the later or
  the same \<^verbatim>\<open>updatedAt\<close>.
\<close>

theorem listNotes_sorted:
  assumes "\<forall>n \<in> set (notes' s). dated h n"
  shows "mset (listNotes h None s) = mset (notes' s)
       \<and> sorted_wrt (\<lambda>a b. time_ge (updatedTime h a) (updatedTime h b)) (listNotes h None s)
       \<and> (\<forall>i. Suc i < length (listNotes h None s) \<longrightarrow>
             time_ge (updatedTime h (listNotes h None s ! i))
                     (updatedTime h (listNotes h None s ! Suc i)))"
proof -
  have none: "listNotes h None s = sortDescByUpdatedAt h (notes' s)"
    by (simp add: listNotes_def)
  have srt: "sorted_wrt (\<lambda>a b. time_ge (updatedTime h a) (updatedTime h b)) (listNotes h None s)"
    unfolding none using assms by (rule sorted_sortDesc)
  then have "\<forall>i. Suc i < length (listNotes h None s) \<longrightarrow>
               time_ge (updatedTime h (listNotes h None s ! i))
                       (updatedTime h (listNotes h None s ! Suc i))"
    by (simp add: sorted_wrt_iff_nth_less)
  with srt show ?thesis by (simp add: none mset_sortDesc)
qed

theorem listNotes_sorted_witness:
  "list_all (dated example_host)
     (notes' \<lparr> env = No_globalThis, notes' = [welcome_note, tips_note] \<rparr>)
   \<and> Suc 0 < length (listNotes example_host None
                       \<lparr> env = No_globalThis, notes' = [welcome_note, tips_note] \<rparr>)
   \<and> time_ge
        (updatedTime example_host
           (listNotes example_host None
              \<lparr> env = No_globalThis, notes' = [welcome_note, tips_note] \<rparr> ! 0))
        (updatedTime example_host
           (listNotes example_host None
              \<lparr> env = No_globalThis, notes' = [welcome_note, tips_note] \<rparr> ! Suc 0))"
proof -
  have d: "\<forall>n \<in> set (notes' \<lparr> env = No_globalThis, notes' = [welcome_note, tips_note] \<rparr>).
             dated example_host n"
    by (simp add: dated_def example_host_def welcome_note_def tips_note_def)
  have l: "length (listNotes example_host None
                     \<lparr> env = No_globalThis, notes' = [welcome_note, tips_note] \<rparr>) = 2"
    using listNotes_sorted [OF d] by (metis size_mset select_convs(2) length_Cons list.size(3) numeral_2_eq_2)
  from d have "list_all (dated example_host)
     (notes' \<lparr> env = No_globalThis, notes' = [welcome_note, tips_note] \<rparr>)"
    by (simp add: list_all_iff)
  then show ?thesis
    using l listNotes_sorted [OF d] by simp
qed

text \<open>
  Claim C4 as stated fails.  On the loaded collection the query \<^verbatim>\<open>e\<close> matches all
  three notes (two titles and one content), and the result is not in descending order
  of \<^verbatim>\<open>updatedAt\<close>: the note without a date sits between the dated ones, and the oldest
  note comes first.
\<close>

theorem listNotes_query_counterexample:
  "trim ''e'' = ''e''
   \<and> notes' loaded = [welcome_note, undated_note, tips_note]
   \<and> listNotes example_host (Some ''e'') loaded = [welcome_note, undated_note, tips_note]
   \<and> map (updatedTime example_host) (listNotes example_host (Some ''e'') loaded)
       = [Some 1704067200000, None, Some 1704070200000]
   \<and> \<not> time_ge (updatedTime example_host welcome_note) (updatedTime example_host undated_note)
   \<and> \<not> time_ge (updatedTime example_host undated_note) (updatedTime example_host tips_note)
   \<and> \<not> time_ge (updatedTime example_host welcome_note) (updatedTime example_host tips_note)"
  by code_simp

text \<open>
  Claim C4, as amended.  For a query whose trimmed form is not empty, \<open>listNotes\<close>
  returns exactly the notes in which the lower-cased trimmed query is a substring of the
  lower-cased title, of the lower-cased content or of some lower-cased tag, in the order
  of the listing without a query; the result is in descending order of \<^verbatim>\<open>updatedAt\<close>
  when every note's \<^verbatim>\<open>updatedAt\<close> is a date.
\<close>

theorem listNotes_query:
  assumes "trim query \<noteq> []"
  shows "listNotes h (Some query) s =
           filter (spec_matches (toLowerCase (trim query))) (listNotes h None s)
       \<and> set (listNotes h (Some query) s) =
           {n \<in> set (notes' s). spec_matches (toLowerCase (trim query)) n}
       \<and> ((\<forall>n \<in> set (notes' s). dated h n) \<longrightarrow>
            sorted_wrt (\<lambda>a b. time_ge (updatedTime h a) (updatedTime h b))
              (listNotes h (Some query) s))"
proof -
  from assms have ne: "query \<noteq> []" and tne: "trim (toLowerCase query) \<noteq> []"
    using trim_nonempty by blast+
  have m: "matches (trim (toLowerCase query)) = spec_matches (toLowerCase (trim query))"
    by (rule ext) (simp add: matches_spec trim_toLowerCase)
  have eq: "listNotes h (Some query) s =
              filter (spec_matches (toLowerCase (trim query))) (listNotes h None s)"
    using ne tne by (simp add: listNotes_def Let_def m)
  have none: "listNotes h None s = sortDescByUpdatedAt h (notes' s)"
    by (simp add: listNotes_def)
  have st: "set (listNotes h (Some query) s) =
              {n \<in> set (notes' s). spec_matches (toLowerCase (trim query)) n}"
    unfolding eq none by (auto simp: set_sortDesc)
  have srt: "sorted_wrt (\<lambda>a b. time_ge (updatedTime h a) (updatedTime h b))
               (listNotes h (Some query) s)"
    if "\<forall>n \<in> set (notes' s). dated h n"
    unfolding eq none using that by (intro sorted_wrt_filter sorted_sortDesc)
  from eq st srt show ?thesis by blast
qed

theorem listNotes_query_witness:
  "trim '' Tip '' \<noteq> []
   \<and> list_all (dated example_host) (notes' two_notes)
   \<and> listNotes example_host (Some '' Tip '') two_notes = [tips_note]
   \<and> sorted_wrt (\<lambda>a b. time_ge (updatedTime example_host a) (updatedTime example_host b))
         (listNotes example_host (Some '' Tip '') two_notes)"
proof -
  have t: "trim '' Tip '' \<noteq> []" by code_simp
  have d: "\<forall>n \<in> set (notes' two_notes). dated example_host n" by code_simp
  have q: "toLowerCase (trim '' Tip '') = ''tip''" by code_simp
  have l: "listNotes example_host None two_notes = [tips_note, welcome_note]" by code_simp
  have m: "matches ''tip'' tips_note" "\<not> matches ''tip'' welcome_note" by code_simp+
  from d have d': "list_all (dated example_host) (notes' two_notes)"
    by (simp add: list_all_iff)
  from listNotes_query [OF t, of example_host two_notes] d d' t show ?thesis
    unfolding q l by (simp add: m [unfolded matches_spec])
qed

section \<open>Creating and updating\<close>

text \<open>
  Claim C9 as stated fails.  The collection holds a note, last updated in 2030, with the
  id that \<^verbatim>\<open>generateId\<close> makes next.  \<open>createNote\<close> returns the new note with that id,
  the stored note sorts before it, and \<open>getNote\<close> with the returned id yields the stored
  note: another title, another content, other tags.
\<close>

theorem createNote_counterexample:
  "generateId id_source = id' clash_note
   \<and> fst (createNote example_host 1704070800000 id_source
            (Payload ''Shopping'' (Some ''Milk'') (Some [''home'']))
            \<lparr> env = LS (storage_with Map.empty), notes' = [clash_note] \<rparr>)
       = Inr \<lparr> id' = ''1704070800000-w8r2tc'', title = ''Shopping'', content = ''Milk'',
                tags = [''home''],
                createdAt = ''2024-01-01T01:00:00.000Z'', updatedAt = ''2024-01-01T01:00:00.000Z'' \<rparr>
   \<and> getNote ''1704070800000-w8r2tc''
         (snd (createNote example_host 1704070800000 id_source
                 (Payload ''Shopping'' (Some ''Milk'') (Some [''home'']))
                 \<lparr> env = LS (storage_with Map.empty), notes' = [clash_note] \<rparr>))
       = Some clash_note
   \<and> title clash_note = ''Welcome to Notes''
   \<and> content clash_note = ''Hello''
   \<and> tags clash_note = [''welcome'']
   \<and> createdAt clash_note \<noteq> updatedAt clash_note"
  by code_simp

text \<open>
  Claim C9, as amended.  \<open>createNote\<close> returns a note with the title of the payload,
  with its content and tags or else the empty string and the empty sequence, and with
  \<^verbatim>\<open>createdAt\<close> equal to \<^verbatim>\<open>updatedAt\<close>, and adds it to the collection.  When the id
  \<^verbatim>\<open>generateId\<close> returns is not yet the id of a note in the collection, \<open>getNote\<close> with
  the id of the returned note yields that note.
\<close>

theorem createNote_then_getNote:
  "\<exists>n s'. createNote h now src p s = (Inr n, s')
     \<and> id' n = generateId src
     \<and> mset (notes' s') = add_mset n (mset (notes' s))
     \<and> title n = title_of p
     \<and> content n = (case content_of p of None \<Rightarrow> [] | Some c \<Rightarrow> c)
     \<and> tags n = (case tags_of p of None \<Rightarrow> [] | Some ts \<Rightarrow> ts)
     \<and> createdAt n = updatedAt n
     \<and> (generateId src \<notin> id' ` set (notes' s) \<longrightarrow> getNote (id' n) s' = Some n)"
proof -
  define n where "n =
    \<lparr> id' = generateId src, title = title_of p,
      content = (case content_of p of None \<Rightarrow> [] | Some c \<Rightarrow> c),
      tags = (case tags_of p of None \<Rightarrow> [] | Some ts \<Rightarrow> ts),
      createdAt = toISOString h now, updatedAt = toISOString h now \<rparr>"
  define s1 where "s1 = s\<lparr>notes' := sortDescByUpdatedAt h (n # notes' s)\<rparr>"
  have c: "createNote h now src p s = (Inr n, snd (persist s1))"
    by (simp add: createNote_def n_def s1_def Let_def persist_eq)
  have ns: "notes' (snd (persist s1)) = sortDescByUpdatedAt h (n # notes' s)"
    by (simp add: persist_eq s1_def)
  have idn: "id' n = generateId src"
    by (simp add: n_def)
  have ms: "mset (notes' (snd (persist s1))) = add_mset n (mset (notes' s))"
    by (simp add: ns mset_sortDesc)
  have g: "getNote (id' n) (snd (persist s1)) = Some n"
    if new: "generateId src \<notin> id' ` set (notes' s)"
  proof -
    have fresh: "id' y \<noteq> id' n" if y: "y \<in> set (notes' s)" for y
    proof
      assume "id' y = id' n"
      then have "generateId src = id' y" by (simp add: idn)
      with y have "generateId src \<in> id' ` set (notes' s)" by (rule rev_image_eqI)
      with new show False by contradiction
    qed
    have mem: "n \<in> set (sortDescByUpdatedAt h (n # notes' s))"
      by (simp add: set_sortDesc)
    have uniq: "\<forall>y \<in> set (sortDescByUpdatedAt h (n # notes' s)). id' y = id' n \<longrightarrow> y = n"
      unfolding set_sortDesc using fresh by (metis set_ConsD)
    have "find (\<lambda>m. id' m = id' n) (sortDescByUpdatedAt h (n # notes' s)) = Some n"
      by (rule find_unique [where P = "\<lambda>m. id' m = id' n", OF mem refl uniq])
    then show ?thesis
      by (simp add: getNote_def ns)
  qed
  have f: "title n = title_of p"
      "content n = (case content_of p of None \<Rightarrow> [] | Some c \<Rightarrow> c)"
      "tags n = (case tags_of p of None \<Rightarrow> [] | Some ts \<Rightarrow> ts)"
      "createdAt n = updatedAt n"
    by (simp_all add: n_def)
  from c idn ms f g
  have "createNote h now src p s = (Inr n, snd (persist s1))
     \<and> id' n = generateId src
     \<and> mset (notes' (snd (persist s1))) = add_mset n (mset (notes' s))
     \<and> title n = title_of p
     \<and> content n = (case content_of p of None \<Rightarrow> [] | Some c \<Rightarrow> c)
     \<and> tags n = (case tags_of p of None \<Rightarrow> [] | Some ts \<Rightarrow> ts)
     \<and> createdAt n = updatedAt n
     \<and> (generateId src \<notin> id' ` set (notes' s) \<longrightarrow> getNote (id' n) (snd (persist s1)) = Some n)"
    by (intro conjI impI) simp_all
  then show ?thesis
    by (rule_tac x = n in exI, rule_tac x = "snd (persist s1)" in exI)
qed

theorem createNote_then_getNote_witness:
  "generateId id_source \<notin> id' ` set (notes' one_note)
   \<and> getNote ''1704070800000-w8r2tc''
         (snd (createNote example_host 1704070800000 id_source (Payload ''Shopping'' None None) one_note))
       = Some \<lparr> id' = ''1704070800000-w8r2tc'', title = ''Shopping'', content = [], tags = [],
                 createdAt = ''2024-01-01T01:00:00.000Z'', updatedAt = ''2024-01-01T01:00:00.000Z'' \<rparr>"
proof -
  have f: "generateId id_source \<notin> id' ` set (notes' one_note)" by code_simp
  have c: "fst (createNote example_host 1704070800000 id_source (Payload ''Shopping'' None None) one_note)
       = Inr \<lparr> id' = ''1704070800000-w8r2tc'', title = ''Shopping'', content = [], tags = [],
                 createdAt = ''2024-01-01T01:00:00.000Z'', updatedAt = ''2024-01-01T01:00:00.000Z'' \<rparr>"
    by code_simp
  from createNote_then_getNote [of example_host 1704070800000 id_source
      "Payload ''Shopping'' None None" one_note]
    f c show ?thesis by auto
qed

text \<open>
  Claim C1 as stated fails.  The stored note was last updated in 2030; the caller
  passes it with another \<^verbatim>\<open>createdAt\<close> at 01:00 on 1 January 2024.  The note stored
  afterwards has the caller's \<^verbatim>\<open>createdAt\<close>, not the stored one, and its \<^verbatim>\<open>updatedAt\<close>
  is earlier than before.
\<close>

theorem updateNote_counterexample:
  "getNote (id' late_note) \<lparr> env = LS (storage_with Map.empty), notes' = [late_note] \<rparr>
     = Some late_note
   \<and> getNote (id' late_note)
        (snd (updateNote example_host 1704070800000
                (late_note\<lparr>createdAt := ''2024-01-01T00:50:00.000Z''\<rparr>)
                \<lparr> env = LS (storage_with Map.empty), notes' = [late_note] \<rparr>))
     = Some (late_note\<lparr>createdAt := ''2024-01-01T00:50:00.000Z'',
                        updatedAt := ''2024-01-01T01:00:00.000Z''\<rparr>)
   \<and> createdAt (late_note\<lparr>createdAt := ''2024-01-01T00:50:00.000Z'',
                           updatedAt := ''2024-01-01T01:00:00.000Z''\<rparr>)
       \<noteq> createdAt late_note
   \<and> \<not> time_ge
          (updatedTime example_host
             (late_note\<lparr>createdAt := ''2024-01-01T00:50:00.000Z'',
                        updatedAt := ''2024-01-01T01:00:00.000Z''\<rparr>))
          (updatedTime example_host late_note)"
  by code_simp

text \<open>
  Claim C1, as amended.  When the collection has a note with the id of the note passed
  to \<open>updateNote\<close>, the first such note \<open>old\<close> is replaced by a note \<open>u\<close> with the same
  id, with the \<^verbatim>\<open>createdAt\<close> the caller supplies (the one of \<open>old\<close> when the caller
  passes it through) and with the current time as \<^verbatim>\<open>updatedAt\<close>, which is not earlier
  than the one of \<open>old\<close> when the clock is not behind it.  With unique ids \<open>u\<close> is the
  note \<open>getNote\<close> finds afterwards.
\<close>

theorem updateNote_existing:
  assumes "id' n \<in> id' ` set (notes' s)"
  shows "\<exists>old u s'. getNote (id' n) s = Some old
           \<and> updateNote h now n s = (Inr u, s')
           \<and> mset (notes' s') = add_mset u (mset (notes' s) - {#old#})
           \<and> id' u = id' old
           \<and> createdAt u = createdAt n
           \<and> updatedAt u = toISOString h now
           \<and> (createdAt n = createdAt old \<longrightarrow> createdAt u = createdAt old)
           \<and> (distinct (map id' (notes' s)) \<longrightarrow> getNote (id' n) s' = Some u)
           \<and> (Date_parse h (toISOString h now) = Some now \<and> updatedTime h old = Some t0 \<and> t0 \<le> now
                \<longrightarrow> time_ge (updatedTime h u) (updatedTime h old))"
proof -
  define idx where "idx = findIndex (\<lambda>m. id' m = id' n) (notes' s)"
  define old where "old = notes' s ! nat idx"
  define u where "u = (spread old n)\<lparr>updatedAt := toISOString h now\<rparr>"
  define s1 where "s1 = s\<lparr>notes' := sortDescByUpdatedAt h ((notes' s)[nat idx := u])\<rparr>"
  have ne: "idx \<noteq> - 1"
    unfolding idx_def findIndex_none using assms by force
  note ne' = ne [unfolded idx_def]
  from findIndex_found [OF ne [unfolded idx_def]]
  have lt: "nat idx < length (notes' s)" and ido: "id' old = id' n"
    and fnd: "getNote (id' n) s = Some old"
    by (simp_all add: idx_def old_def getNote_def)
  have upd: "updateNote h now n s = (Inr u, snd (persist s1))"
    using ne' by (simp add: updateNote_def Let_def persist_eq idx_def old_def u_def s1_def)
  have ns: "notes' (snd (persist s1)) = sortDescByUpdatedAt h ((notes' s)[nat idx := u])"
    by (simp add: persist_eq s1_def)
  have ms: "mset (notes' (snd (persist s1))) = add_mset u (mset (notes' s) - {#old#})"
    using lt by (simp add: ns mset_sortDesc mset_update old_def)
  have flds: "id' u = id' old" "createdAt u = createdAt n" "updatedAt u = toISOString h now"
    using ido by (simp_all add: u_def spread_def)
  have gt: "getNote (id' n) (snd (persist s1)) = Some u" if d: "distinct (map id' (notes' s))"
  proof -
    have mem: "u \<in> set (sortDescByUpdatedAt h ((notes' s)[nat idx := u]))"
      using lt by (simp add: set_sortDesc set_update_memI)
    have fu: "id' u = id' (notes' s ! nat idx)"
      using flds(1) by (simp add: old_def)
    have un: "id' u = id' n"
      using flds(1) ido by simp
    have uniq: "\<forall>y \<in> set (sortDescByUpdatedAt h ((notes' s)[nat idx := u])).
                 id' y = id' n \<longrightarrow> y = u"
      unfolding set_sortDesc un [symmetric]
      using update_distinct_unique [OF d lt fu] by blast
    have "find (\<lambda>m. id' m = id' n) (sortDescByUpdatedAt h ((notes' s)[nat idx := u])) = Some u"
      by (rule find_unique [where P = "\<lambda>m. id' m = id' n", OF mem un uniq [unfolded un]])
    then show ?thesis by (simp add: getNote_def ns)
  qed
  have tm: "time_ge (updatedTime h u) (updatedTime h old)"
    if "Date_parse h (toISOString h now) = Some now \<and> updatedTime h old = Some t0 \<and> t0 \<le> now"
    using that by (simp add: time_ge_def updatedTime_def flds)
  from fnd upd ms flds gt tm
  have "getNote (id' n) s = Some old
           \<and> updateNote h now n s = (Inr u, snd (persist s1))
           \<and> mset (notes' (snd (persist s1))) = add_mset u (mset (notes' s) - {#old#})
           \<and> id' u = id' old
           \<and> createdAt u = createdAt n
           \<and> updatedAt u = toISOString h now
           \<and> (createdAt n = createdAt old \<longrightarrow> createdAt u = createdAt old)
           \<and> (distinct (map id' (notes' s)) \<longrightarrow> getNote (id' n) (snd (persist s1)) = Some u)
           \<and> (Date_parse h (toISOString h now) = Some now \<and> updatedTime h old = Some t0 \<and> t0 \<le> now
                \<longrightarrow> time_ge (updatedTime h u) (updatedTime h old))"
    by (intro conjI impI) simp_all
  then show ?thesis
    by (rule_tac x = old in exI, rule_tac x = u in exI, rule_tac x = "snd (persist s1)" in exI)
qed

theorem updateNote_existing_witness:
  "id' (tips_note\<lparr>title := ''Tips and tricks''\<rparr>) \<in> id' ` set (notes' two_notes)
   \<and> distinct (map id' (notes' two_notes))
   \<and> createdAt (tips_note\<lparr>title := ''Tips and tricks''\<rparr>) = createdAt tips_note
   \<and> Date_parse example_host (toISOString example_host 1704070800000) = Some 1704070800000
   \<and> updatedTime example_host tips_note = Some 1704070200000
   \<and> (1704070200000 :: int) \<le> 1704070800000
   \<and> getNote (id' tips_note) two_notes = Some tips_note
   \<and> getNote (id' tips_note)
        (snd (updateNote example_host 1704070800000 (tips_note\<lparr>title := ''Tips and tricks''\<rparr>)
                two_notes))
       = Some (tips_note\<lparr>title := ''Tips and tricks'', updatedAt := ''2024-01-01T01:00:00.000Z''\<rparr>)
   \<and> time_ge
        (updatedTime example_host
           (tips_note\<lparr>title := ''Tips and tricks'', updatedAt := ''2024-01-01T01:00:00.000Z''\<rparr>))
        (updatedTime example_host tips_note)"
proof -
  have i: "id' (tips_note\<lparr>title := ''Tips and tricks''\<rparr>) \<in> id' ` set (notes' two_notes)"
    by code_simp
  have d: "distinct (map id' (notes' two_notes))" by code_simp
  have c: "createdAt (tips_note\<lparr>title := ''Tips and tricks''\<rparr>) = createdAt tips_note"
    by simp
  have p: "Date_parse example_host (toISOString example_host 1704070800000) = Some 1704070800000"
    by code_simp
  have t: "updatedTime example_host tips_note = Some 1704070200000" by code_simp
  have g: "getNote (id' (tips_note\<lparr>title := ''Tips and tricks''\<rparr>)) two_notes = Some tips_note"
    by code_simp
  have u: "fst (updateNote example_host 1704070800000 (tips_note\<lparr>title := ''Tips and tricks''\<rparr>)
                two_notes)
       = Inr (tips_note\<lparr>title := ''Tips and tricks'', updatedAt := ''2024-01-01T01:00:00.000Z''\<rparr>)"
    by code_simp
  have iso: "toISOString example_host 1704070800000 = ''2024-01-01T01:00:00.000Z''"
    by code_simp
  have g': "getNote (id' tips_note) two_notes = Some tips_note"
    using g by simp
  from updateNote_existing [OF i, of example_host 1704070800000 1704070200000] d c p t g u
  have r: "getNote (id' tips_note)
        (snd (updateNote example_host 1704070800000 (tips_note\<lparr>title := ''Tips and tricks''\<rparr>)
                two_notes))
       = Some (tips_note\<lparr>title := ''Tips and tricks'', updatedAt := ''2024-01-01T01:00:00.000Z''\<rparr>)
   \<and> time_ge
        (updatedTime example_host
           (tips_note\<lparr>title := ''Tips and tricks'', updatedAt := ''2024-01-01T01:00:00.000Z''\<rparr>))
        (updatedTime example_host tips_note)"
    by (auto simp: iso)
  from i d c p t g' r show ?thesis by (intro conjI) simp_all
qed

section \<open>Initialisation and the round trip through the store\<close>

text \<open>
  Claim C2 as stated fails.  The stored payload decodes to a sequence of one object
  without an id; sanitisation drops it, and the constructor leaves the collection empty
  and the store as it was: no seed notes.
\<close>

theorem constructor_counterexample:
  "read (LS (storage_with [NOTES_KEY \<mapsto> JSON_text invalid_payload])) NOTES_KEY = Inr invalid_payload
   \<and> invalid_payload = JArr [JObj [(''title'', JStr ''No id'')]]
   \<and> sanitizeNotes invalid_payload = []
   \<and> fst (constructor example_host 1704070800000 id_source id_source2
            (LS (storage_with [NOTES_KEY \<mapsto> JSON_text invalid_payload]))) = Inr ()
   \<and> notes' (snd (constructor example_host 1704070800000 id_source id_source2
            (LS (storage_with [NOTES_KEY \<mapsto> JSON_text invalid_payload])))) = []
   \<and> read (env (snd (constructor example_host 1704070800000 id_source id_source2
            (LS (storage_with [NOTES_KEY \<mapsto> JSON_text invalid_payload]))))) NOTES_KEY
       = Inr invalid_payload"
  by (simp add: constructor_eq read_eq storage_with_def invalid_payload_def sanitizeNotes_def
        sanitize_item_def List.map_filter_simps sortDesc_Nil)

text \<open>
  Claim C2, as amended.  When the stored payload decodes to the empty sequence, the
  constructor fills the collection with exactly the two seed notes, titled
  \<^verbatim>\<open>Welcome to Notes\<close> and \<^verbatim>\<open>Tips\<close>, stamped one hour and ten minutes before the
  current time, and hands them to the storage adapter at once, so that a store that
  accepts the write reads them back.  When the payload decodes to a sequence that is
  not empty and sanitisation drops every element, the collection stays empty and
  nothing is written.
\<close>

theorem constructor_seeds:
  "(read g NOTES_KEY = Inr (JArr []) \<longrightarrow>
      (\<exists>s w t. constructor h now src1 src2 g = (Inr (), s)
         \<and> mset (notes' s) = {#w, t#}
         \<and> title w = ''Welcome to Notes'' \<and> title t = ''Tips''
         \<and> createdAt w = toISOString h (now - 3600000) \<and> updatedAt w = createdAt w
         \<and> createdAt t = toISOString h (now - 600000) \<and> updatedAt t = createdAt t
         \<and> write' g NOTES_KEY (Plain (JArr (map note_json (notes' s)))) = Inr (env s)
         \<and> (\<not> setItem_raises ls NOTES_KEY (JSON_text (JArr (map note_json (notes' s)))) \<and> g = LS ls
              \<longrightarrow> read (env s) NOTES_KEY = Inr (JArr (map note_json (notes' s))))))
   \<and> (read g NOTES_KEY = Inr (JArr (x # xs)) \<and> sanitizeNotes (JArr (x # xs)) = [] \<longrightarrow>
        constructor h now src1 src2 g = (Inr (), \<lparr> env = g, notes' = [] \<rparr>))"
proof (intro conjI impI)
  assume r: "read g NOTES_KEY = Inr (JArr [])"
  define s where "s = snd (persist \<lparr> env = g, notes' = seedNotes h now src1 src2 \<rparr>)"
  define w where "w = \<lparr> id' = generateId src1,
          title = ''Welcome to Notes'',
          content = ''This is your first note. Use the app to create, edit, search, and delete notes. Your notes are stored locally in your browser.'',
          tags = [''welcome'', ''getting-started''],
          createdAt = toISOString h (now - 3600000),
          updatedAt = toISOString h (now - 3600000) \<rparr>"
  define t where "t = \<lparr> id' = generateId src2,
          title = ''Tips'',
          content = ''Use the search to quickly find notes by title, content, or tags. Notes are sorted by most recently updated.'',
          tags = [''tips'', ''productivity''],
          createdAt = toISOString h (now - 600000),
          updatedAt = toISOString h (now - 600000) \<rparr>"
  have c: "constructor h now src1 src2 g = (Inr (), s)"
    by (simp add: constructor_eq r s_def persist_eq)
  have ns: "notes' s = seedNotes h now src1 src2"
    by (simp add: s_def persist_eq)
  have m: "mset (notes' s) = {#w, t#}"
    by (simp add: ns mset_seedNotes w_def t_def)
  have f: "title w = ''Welcome to Notes''" "title t = ''Tips''"
      "createdAt w = toISOString h (now - 3600000)" "updatedAt w = createdAt w"
      "createdAt t = toISOString h (now - 600000)" "updatedAt t = createdAt t"
    by (simp_all add: w_def t_def)
  have wr: "write' g NOTES_KEY (Plain (JArr (map note_json (notes' s)))) = Inr (env s)"
    by (simp add: s_def persist_def write_eq)
  have rd: "read (env s) NOTES_KEY = Inr (JArr (map note_json (notes' s)))"
    if "\<not> setItem_raises ls NOTES_KEY (JSON_text (JArr (map note_json (notes' s)))) \<and> g = LS ls"
  proof -
    from that r have gr: "\<not> getItem_raises ls NOTES_KEY"
      by (auto simp: read_eq split: if_splits)
    from that [unfolded ns] have "env s = LS (ls\<lparr>items := (items ls)(NOTES_KEY \<mapsto>
        JSON_text (JArr (map note_json (seedNotes h now src1 src2))))\<rparr>)"
      by (simp add: s_def persist_eq)
    with gr show ?thesis by (simp add: read_eq ns)
  qed
  from c m f wr rd
  have "constructor h now src1 src2 g = (Inr (), s)
         \<and> mset (notes' s) = {#w, t#}
         \<and> title w = ''Welcome to Notes'' \<and> title t = ''Tips''
         \<and> createdAt w = toISOString h (now - 3600000) \<and> updatedAt w = createdAt w
         \<and> createdAt t = toISOString h (now - 600000) \<and> updatedAt t = createdAt t
         \<and> write' g NOTES_KEY (Plain (JArr (map note_json (notes' s)))) = Inr (env s)
         \<and> (\<not> setItem_raises ls NOTES_KEY (JSON_text (JArr (map note_json (notes' s)))) \<and> g = LS ls
              \<longrightarrow> read (env s) NOTES_KEY = Inr (JArr (map note_json (notes' s))))"
    by (intro conjI impI) simp_all
  then show "\<exists>s w t. constructor h now src1 src2 g = (Inr (), s)
         \<and> mset (notes' s) = {#w, t#}
         \<and> title w = ''Welcome to Notes'' \<and> title t = ''Tips''
         \<and> createdAt w = toISOString h (now - 3600000) \<and> updatedAt w = createdAt w
         \<and> createdAt t = toISOString h (now - 600000) \<and> updatedAt t = createdAt t
         \<and> write' g NOTES_KEY (Plain (JArr (map note_json (notes' s)))) = Inr (env s)
         \<and> (\<not> setItem_raises ls NOTES_KEY (JSON_text (JArr (map note_json (notes' s)))) \<and> g = LS ls
              \<longrightarrow> read (env s) NOTES_KEY = Inr (JArr (map note_json (notes' s))))"
    by (rule_tac x = s in exI, rule_tac x = w in exI, rule_tac x = t in exI)
next
  assume "read g NOTES_KEY = Inr (JArr (x # xs)) \<and> sanitizeNotes (JArr (x # xs)) = []"
  then show "constructor h now src1 src2 g = (Inr (), \<lparr> env = g, notes' = [] \<rparr>)"
    by (simp add: constructor_eq sortDesc_Nil)
qed

theorem constructor_seeds_witness:
  "read (LS (storage_with [NOTES_KEY \<mapsto> JSON_text (JArr [])])) NOTES_KEY = Inr (JArr [])
   \<and> map title (notes' (snd (constructor example_host 1704070800000 id_source id_source2
          (LS (storage_with [NOTES_KEY \<mapsto> JSON_text (JArr [])])))))
       = [''Tips'', ''Welcome to Notes'']
   \<and> map updatedAt (notes' (snd (constructor example_host 1704070800000 id_source id_source2
          (LS (storage_with [NOTES_KEY \<mapsto> JSON_text (JArr [])])))))
       = [''2024-01-01T00:50:00.000Z'', ''2024-01-01T00:00:00.000Z'']
   \<and> \<not> setItem_raises (storage_with [NOTES_KEY \<mapsto> JSON_text (JArr [])]) NOTES_KEY
         (JSON_text (JArr (map note_json
            (notes' (snd (constructor example_host 1704070800000 id_source id_source2
               (LS (storage_with [NOTES_KEY \<mapsto> JSON_text (JArr [])]))))))))
   \<and> read (env (snd (constructor example_host 1704070800000 id_source id_source2
          (LS (storage_with [NOTES_KEY \<mapsto> JSON_text (JArr [])]))))) NOTES_KEY
       = Inr (JArr (map note_json
           (notes' (snd (constructor example_host 1704070800000 id_source id_source2
              (LS (storage_with [NOTES_KEY \<mapsto> JSON_text (JArr [])])))))))
   \<and> read (LS (storage_with [NOTES_KEY \<mapsto> JSON_text invalid_payload])) NOTES_KEY
       = Inr (JArr [JObj [(''title'', JStr ''No id'')]])
   \<and> sanitizeNotes (JArr [JObj [(''title'', JStr ''No id'')]]) = []
   \<and> constructor example_host 1704070800000 id_source id_source2
         (LS (storage_with [NOTES_KEY \<mapsto> JSON_text invalid_payload]))
       = (Inr (), \<lparr> env = LS (storage_with [NOTES_KEY \<mapsto> JSON_text invalid_payload]),
                     notes' = [] \<rparr>)"
proof -
  let ?g = "LS (storage_with [NOTES_KEY \<mapsto> JSON_text (JArr [])])"
  let ?s = "snd (constructor example_host 1704070800000 id_source id_source2 ?g)"
  have r: "read ?g NOTES_KEY = Inr (JArr [])"
    by (simp add: read_eq storage_with_def)
  have n: "notes' ?s = seedNotes example_host 1704070800000 id_source id_source2"
    by (simp add: constructor_eq r persist_eq)
  have tt: "map title (seedNotes example_host 1704070800000 id_source id_source2)
              = [''Tips'', ''Welcome to Notes'']"
    by code_simp
  have uu: "map updatedAt (seedNotes example_host 1704070800000 id_source id_source2)
              = [''2024-01-01T00:50:00.000Z'', ''2024-01-01T00:00:00.000Z'']"
    by code_simp
  have q: "\<not> setItem_raises (storage_with [NOTES_KEY \<mapsto> JSON_text (JArr [])]) NOTES_KEY
             (JSON_text (JArr (map note_json (notes' ?s))))"
    by (simp add: storage_with_def)
  have r2: "read (LS (storage_with [NOTES_KEY \<mapsto> JSON_text invalid_payload])) NOTES_KEY
              = Inr (JArr [JObj [(''title'', JStr ''No id'')]])"
    by (simp add: read_eq storage_with_def invalid_payload_def)
  have z: "sanitizeNotes (JArr [JObj [(''title'', JStr ''No id'')]]) = []"
    by (simp add: sanitizeNotes_def sanitize_item_def List.map_filter_simps)
  from constructor_seeds [where g = ?g and h = example_host and now = 1704070800000
      and ?src1.0 = id_source and ?src2.0 = id_source2
      and ls = "storage_with [NOTES_KEY \<mapsto> JSON_text (JArr [])]"] r q
  have a: "read (env ?s) NOTES_KEY = Inr (JArr (map note_json (notes' ?s)))"
    by auto
  from constructor_seeds [where g = "LS (storage_with [NOTES_KEY \<mapsto> JSON_text invalid_payload])"
      and x = "JObj [(''title'', JStr ''No id'')]" and xs = "[]" and h = example_host
      and now = 1704070800000 and ?src1.0 = id_source and ?src2.0 = id_source2]
    r2 z
  have b: "constructor example_host 1704070800000 id_source id_source2
         (LS (storage_with [NOTES_KEY \<mapsto> JSON_text invalid_payload]))
       = (Inr (), \<lparr> env = LS (storage_with [NOTES_KEY \<mapsto> JSON_text invalid_payload]),
                     notes' = [] \<rparr>)"
    by blast
  from r tt uu q a r2 z b show ?thesis
    unfolding n by (intro conjI) simp_all
qed

text \<open>
  Claim C3 as stated fails.  \<open>createNote\<close> accepts an empty title and persists the note;
  the constructor, run on the store this leaves, drops that note and keeps the other.
\<close>

theorem round_trip_counterexample:
  "map id' (notes' (snd (createNote example_host 1704070800000 id_source
                           (Payload [] None None) one_note)))
     = [''1704070800000-w8r2tc'', ''1704067200000-k3x9qa'']
   \<and> map title (notes' (snd (createNote example_host 1704070800000 id_source
                             (Payload [] None None) one_note)))
     = [[], ''Welcome to Notes'']
   \<and> read (env (snd (createNote example_host 1704070800000 id_source
                       (Payload [] None None) one_note))) NOTES_KEY
     = Inr (JArr (map note_json
         (notes' (snd (createNote example_host 1704070800000 id_source
                         (Payload [] None None) one_note)))))
   \<and> map id' (notes' (snd (constructor example_host 1893456000000 id_source id_source2
        (env (snd (createNote example_host 1704070800000 id_source
                     (Payload [] None None) one_note))))))
     = [''1704067200000-k3x9qa'']"
  by code_simp

text \<open>
  Claim C3, as amended.  For a collection that is not empty and whose notes all have a
  non-empty id, title, \<^verbatim>\<open>createdAt\<close> and \<^verbatim>\<open>updatedAt\<close>, persisting it to a store that
  accepts the write and constructing the service anew from that store yields the same
  notes (the collection sorted again), and the constructor writes nothing.
\<close>

theorem persist_then_constructor:
  assumes "env s = LS ls"
    and "\<not> getItem_raises ls NOTES_KEY"
    and "\<not> setItem_raises ls NOTES_KEY (JSON_text (JArr (map note_json (notes' s))))"
    and "notes' s \<noteq> []"
    and "\<forall>n \<in> set (notes' s). storable n"
  shows "\<exists>s1 s2. persist s = (Inr (), s1)
           \<and> constructor h now src1 src2 (env s1) = (Inr (), s2)
           \<and> env s2 = env s1
           \<and> notes' s2 = sortDescByUpdatedAt h (notes' s)
           \<and> mset (notes' s2) = mset (notes' s)"
proof -
  define g1 where "g1 = LS (ls\<lparr>items := (items ls)(NOTES_KEY \<mapsto>
                            JSON_text (JArr (map note_json (notes' s))))\<rparr>)"
  have p: "persist s = (Inr (), s\<lparr>env := g1\<rparr>)"
    using assms(1,3) by (simp add: persist_eq g1_def)
  have r: "read g1 NOTES_KEY = Inr (JArr (map note_json (notes' s)))"
    using assms(2) by (simp add: read_eq g1_def)
  obtain n ns where nn: "notes' s = n # ns"
    using assms(4) by (cases "notes' s") auto
  have sn: "sanitizeNotes (JArr (map note_json (notes' s))) = notes' s"
    using assms(5) by (rule sanitizeNotes_json)
  have c: "constructor h now src1 src2 g1 =
             (Inr (), \<lparr> env = g1, notes' = sortDescByUpdatedAt h (notes' s) \<rparr>)"
    unfolding constructor_eq r using sn by (simp add: nn)
  from p c
  have "persist s = (Inr (), s\<lparr>env := g1\<rparr>)
           \<and> constructor h now src1 src2 (env (s\<lparr>env := g1\<rparr>)) =
               (Inr (), \<lparr> env = g1, notes' = sortDescByUpdatedAt h (notes' s) \<rparr>)
           \<and> env \<lparr> env = g1, notes' = sortDescByUpdatedAt h (notes' s) \<rparr> = env (s\<lparr>env := g1\<rparr>)
           \<and> notes' \<lparr> env = g1, notes' = sortDescByUpdatedAt h (notes' s) \<rparr>
               = sortDescByUpdatedAt h (notes' s)
           \<and> mset (notes' \<lparr> env = g1, notes' = sortDescByUpdatedAt h (notes' s) \<rparr>)
               = mset (notes' s)"
    by (simp add: mset_sortDesc)
  then show ?thesis
    by (rule_tac x = "s\<lparr>env := g1\<rparr>" in exI,
        rule_tac x = "\<lparr> env = g1, notes' = sortDescByUpdatedAt h (notes' s) \<rparr>" in exI)
qed

theorem persist_then_constructor_witness:
  "env two_notes = LS (storage_with Map.empty)
   \<and> \<not> getItem_raises (storage_with Map.empty) NOTES_KEY
   \<and> \<not> setItem_raises (storage_with Map.empty) NOTES_KEY
         (JSON_text (JArr (map note_json (notes' two_notes))))
   \<and> notes' two_notes \<noteq> []
   \<and> list_all storable (notes' two_notes)
   \<and> mset (notes' (snd (constructor example_host 1893456000000 id_source id_source2
                           (env (snd (persist two_notes))))))
       = mset (notes' two_notes)"
proof -
  have a: "env two_notes = LS (storage_with Map.empty)"
    by (simp add: two_notes_def)
  have b: "\<not> getItem_raises (storage_with Map.empty) NOTES_KEY"
    by (simp add: storage_with_def)
  have c: "\<not> setItem_raises (storage_with Map.empty) NOTES_KEY
             (JSON_text (JArr (map note_json (notes' two_notes))))"
    by (simp add: storage_with_def)
  have d: "notes' two_notes \<noteq> []"
    by (simp add: two_notes_def)
  have e: "\<forall>n \<in> set (notes' two_notes). storable n"
    by code_simp
  from persist_then_constructor [OF a b c d e, of example_host 1893456000000 id_source id_source2]
  have "mset (notes' (snd (constructor example_host 1893456000000 id_source id_source2
                           (env (snd (persist two_notes))))))
       = mset (notes' two_notes)"
    by auto
  moreover from e have "list_all storable (notes' two_notes)"
    by (simp add: list_all_iff)
  ultimately show ?thesis using a b c d by (intro conjI)
qed

end
